theory Spec2Isabelle
  imports Complex_Main
begin

section \<open>The countdown timer of App.vue\<close>

text \<open>
  The repository holds two versions of the one component: one of them adds the alarm
  (\<open>startAlarm\<close>, \<open>stopAlarm\<close>, \<open>handleWindowClick\<close>) and calls \<open>startAlarm\<close> from the tick;
  the timer functions and the computed values are the same in both. The version with the
  alarm is the one modelled.

  The component keeps its state in Vue refs (\<open>inputHours\<close>, \<open>remainingTime\<close>, ...) and in
  three module-level handle variables (\<open>intervalId\<close>, \<open>alarmTimeoutId\<close>,
  \<open>alarmIntervalId\<close>). All of them become fields of one record that every function takes
  and returns. The number-valued refs hold whole seconds and are modelled as \<open>int\<close>
  (negative and large values included, fractions not); the progress values are quotients
  and are modelled as \<open>real\<close>.

  The functions call the browser's \<open>setInterval\<close>, \<open>setTimeout\<close>, \<open>clearInterval\<close> and
  \<open>clearTimeout\<close>. The browser side is the list of active timers, a counter for fresh
  handles and a clock in milliseconds; they are fields of the same record.
\<close>

subsection \<open>Data\<close>

datatype flashing = NoFlash | Fade | Slow | Fast

text \<open>The two closures that are handed to the browser: the body of the interval in
  \<open>startTimer\<close> and the body of the timeout in \<open>startAlarm\<close>.\<close>

datatype callback = TickCb | AlarmCb

record timer =
  tid :: nat
  repeating :: bool
  delay :: nat
  due :: nat
  cb :: callback

record app =
  inputHours :: int
  inputMinutes :: int
  inputSeconds :: int
  originalTime :: int
  remainingTime :: int
  isRunning :: bool
  hasStarted :: bool
  flashingMode :: flashing
  isAlarming :: bool
  intervalId :: "nat option"
  alarmTimeoutId :: "nat option"
  alarmIntervalId :: "nat option"
  clock :: nat
  nextId :: nat
  timers :: "timer list"
  alarmCalls :: nat

text \<open>
  \<open>alarmCalls\<close> is a history variable: it counts the invocations of \<open>startAlarm\<close> and is
  read by no function. Everything else is a variable of the component or of the browser.
\<close>

subsection \<open>The browser's timers\<close>

definition setTimer :: "bool \<Rightarrow> callback \<Rightarrow> nat \<Rightarrow> app \<Rightarrow> nat \<times> app" where
  "setTimer rep c ms s =
     (nextId s,
      s\<lparr>nextId := nextId s + 1,
        timers := timers s @
          [\<lparr>tid = nextId s, repeating = rep, delay = ms, due = clock s + ms, cb = c\<rparr>]\<rparr>)"

definition setInterval :: "callback \<Rightarrow> nat \<Rightarrow> app \<Rightarrow> nat \<times> app" where
  "setInterval c ms s = setTimer True c ms s"

definition setTimeout :: "callback \<Rightarrow> nat \<Rightarrow> app \<Rightarrow> nat \<times> app" where
  "setTimeout c ms s = setTimer False c ms s"

text \<open>Clearing a handle that is not active (fired, cleared before, never issued) does
  nothing.\<close>

definition clearTimer :: "nat \<Rightarrow> app \<Rightarrow> app" where
  "clearTimer h s = s\<lparr>timers := filter (\<lambda>t. tid t \<noteq> h) (timers s)\<rparr>"

definition clearInterval :: "nat \<Rightarrow> app \<Rightarrow> app" where
  "clearInterval h s = clearTimer h s"

definition clearTimeout :: "nat \<Rightarrow> app \<Rightarrow> app" where
  "clearTimeout h s = clearTimer h s"

definition armed :: "nat \<Rightarrow> app \<Rightarrow> bool" where
  "armed h s = (\<exists>t \<in> set (timers s). tid t = h)"

definition ticks :: "app \<Rightarrow> timer list" where
  "ticks s = filter (\<lambda>t. cb t = TickCb) (timers s)"

definition alarms :: "app \<Rightarrow> timer list" where
  "alarms s = filter (\<lambda>t. cb t = AlarmCb) (timers s)"

subsection \<open>Computed values\<close>

definition canStart :: "app \<Rightarrow> bool" where
  "canStart s =
     (if hasStarted s then remainingTime s > 0
      else inputHours s > 0 \<or> inputMinutes s > 0 \<or> inputSeconds s > 0)"









subsection \<open>Timer functions\<close>

definition pauseTimer :: "app \<Rightarrow> app" where
  "pauseTimer s =
     (let s1 = s\<lparr>isRunning := False\<rparr>
      in case intervalId s1 of
           None \<Rightarrow> s1
         | Some h \<Rightarrow> (clearInterval h s1)\<lparr>intervalId := None\<rparr>)"

definition startAlarm :: "app \<Rightarrow> app" where
  "startAlarm s =
     (let s0 = s\<lparr>alarmCalls := alarmCalls s + 1\<rparr>
      in if flashingMode s0 = NoFlash then s0
         else (let s1 = s0\<lparr>isAlarming := True\<rparr>;
                   (h, s2) = setTimeout AlarmCb 10000 s1
               in s2\<lparr>alarmTimeoutId := Some h\<rparr>))"

definition stopAlarm :: "app \<Rightarrow> app" where
  "stopAlarm s =
     (let s1 = s\<lparr>isAlarming := False\<rparr>;
          s2 = (case alarmTimeoutId s1 of
                  None \<Rightarrow> s1
                | Some h \<Rightarrow> (clearTimeout h s1)\<lparr>alarmTimeoutId := None\<rparr>)
      in case alarmIntervalId s2 of
           None \<Rightarrow> s2
         | Some h \<Rightarrow> (clearInterval h s2)\<lparr>alarmIntervalId := None\<rparr>)"

text \<open>The body of the interval armed by \<open>startTimer\<close>.\<close>

definition tickCallback :: "app \<Rightarrow> app" where
  "tickCallback s =
     (let s1 = (if remainingTime s > 0 then s\<lparr>remainingTime := remainingTime s - 1\<rparr> else s)
      in if remainingTime s1 \<le> 0 then startAlarm (pauseTimer s1) else s1)"

text \<open>The body of the timeout armed by \<open>startAlarm\<close>.\<close>

definition alarmCallback :: "app \<Rightarrow> app" where
  "alarmCallback s = stopAlarm s"

definition totalInput :: "app \<Rightarrow> int" where
  "totalInput s = inputHours s * 3600 + inputMinutes s * 60 + inputSeconds s"

text \<open>\<open>startTimer\<close> has two early returns; both leave the state as it is at that point.\<close>

definition startTimer :: "app \<Rightarrow> app" where
  "startTimer s =
     (if \<not> hasStarted s \<and> totalInput s \<le> 0 then s
      else
        (let s1 = (if \<not> hasStarted s
                   then s\<lparr>originalTime := totalInput s, remainingTime := totalInput s,
                          hasStarted := True\<rparr>
                   else s)
         in if remainingTime s1 \<le> 0 then s1
            else (let s2 = s1\<lparr>isRunning := True\<rparr>;
                      (h, s3) = setInterval TickCb 1000 s2
                  in s3\<lparr>intervalId := Some h\<rparr>)))"

definition resetTimer :: "app \<Rightarrow> app" where
  "resetTimer s = (let s1 = pauseTimer s in s1\<lparr>remainingTime := originalTime s1\<rparr>)"

definition deleteTimer :: "app \<Rightarrow> app" where
  "deleteTimer s =
     (pauseTimer s)\<lparr>hasStarted := False, remainingTime := 0, originalTime := 0,
                    inputHours := 0, inputMinutes := 0, inputSeconds := 0\<rparr>"

definition handleWindowClick :: "app \<Rightarrow> app" where
  "handleWindowClick s = (if isAlarming s then stopAlarm s else s)"

subsection \<open>Time\<close>

text \<open>
  A timer fires when it is active and its time has come. The browser runs the callback;
  afterwards, if the callback has not cleared the handle, an interval is scheduled again
  one delay after the current time and a timeout is removed from the list.
\<close>

definition run_cb :: "callback \<Rightarrow> app \<Rightarrow> app" where
  "run_cb c s = (case c of TickCb \<Rightarrow> tickCallback s | AlarmCb \<Rightarrow> alarmCallback s)"

definition reschedule :: "nat \<Rightarrow> app \<Rightarrow> app" where
  "reschedule h s =
     s\<lparr>timers := map (\<lambda>t. if tid t = h then t\<lparr>due := clock s + delay t\<rparr> else t) (timers s)\<rparr>"

definition fire :: "nat \<Rightarrow> app \<Rightarrow> app" where
  "fire h s =
     (case find (\<lambda>t. tid t = h) (timers s) of
        None \<Rightarrow> s
      | Some t \<Rightarrow>
          if clock s < due t then s
          else (let s1 = run_cb (cb t) s
                in if repeating t then reschedule h s1 else clearTimer h s1))"

definition elapse :: "nat \<Rightarrow> app \<Rightarrow> app" where
  "elapse d s = s\<lparr>clock := clock s + d\<rparr>"

text \<open>Punctual delivery: the clock moves one millisecond at a time and every timer that
  is due fires at once, in the order of the list.\<close>

definition due_now :: "app \<Rightarrow> nat list" where
  "due_now s = map tid (filter (\<lambda>t. due t \<le> clock s) (timers s))"

fun fire_all :: "nat list \<Rightarrow> app \<Rightarrow> app" where
  "fire_all [] s = s"
| "fire_all (h # hs) s = fire_all hs (fire h s)"

definition step_ms :: "app \<Rightarrow> app" where
  "step_ms s = (let s1 = elapse 1 s in fire_all (due_now s1) s1)"

fun advance :: "nat \<Rightarrow> app \<Rightarrow> app" where
  "advance 0 s = s"
| "advance (Suc n) s = advance n (step_ms s)"

text \<open>Arbitrary delivery: time passes without any callback, or one timer that is due
  fires, in any order.\<close>

datatype time_event = Elapse nat | Fire nat

fun time_step :: "time_event \<Rightarrow> app \<Rightarrow> app" where
  "time_step (Elapse d) s = elapse d s"
| "time_step (Fire h) s = fire h s"

fun run_time :: "time_event list \<Rightarrow> app \<Rightarrow> app" where
  "run_time [] s = s"
| "run_time (e # es) s = run_time es (time_step e s)"

subsection \<open>The page\<close>

text \<open>The state after mounting: \<open>loadSettings\<close> may have put any stored numbers into the
  three input fields and any mode into \<open>flashingMode\<close>; nothing is armed.\<close>

definition idle :: "int \<Rightarrow> int \<Rightarrow> int \<Rightarrow> flashing \<Rightarrow> app" where
  "idle h m sec f =
     \<lparr>inputHours = h, inputMinutes = m, inputSeconds = sec, originalTime = 0,
      remainingTime = 0, isRunning = False, hasStarted = False, flashingMode = f,
      isAlarming = False, intervalId = None, alarmTimeoutId = None, alarmIntervalId = None,
      clock = 0, nextId = 1, timers = [], alarmCalls = 0\<rparr>"

text \<open>
  What the template lets the user do. The input fields exist only while
  \<open>hasStarted\<close> is false, next to a Start button that is disabled unless \<open>canStart\<close>;
  afterwards the Start/Resume button exists only while \<open>\<not> isRunning \<and> remainingTime > 0\<close>,
  Pause only while \<open>isRunning\<close>, Reset is disabled while \<open>remainingTime = originalTime\<close>.
  Every click bubbles to the root element, whose handler is \<open>handleWindowClick\<close>, so a
  button's handler is followed by it.
\<close>

datatype ui_event =
    SetInputs int int int
  | SetMode flashing
  | ClickStart
  | ClickResume
  | ClickPause
  | ClickReset
  | ClickDelete
  | ClickElsewhere
  | Time time_event

fun enabled :: "ui_event \<Rightarrow> app \<Rightarrow> bool" where
  "enabled (SetInputs h m sec) s = (\<not> hasStarted s)"
| "enabled (SetMode f) s = True"
| "enabled ClickStart s = (\<not> hasStarted s \<and> canStart s)"
| "enabled ClickResume s = (hasStarted s \<and> \<not> isRunning s \<and> remainingTime s > 0)"
| "enabled ClickPause s = (hasStarted s \<and> isRunning s)"
| "enabled ClickReset s = (hasStarted s \<and> remainingTime s \<noteq> originalTime s)"
| "enabled ClickDelete s = hasStarted s"
| "enabled ClickElsewhere s = True"
| "enabled (Time e) s = True"

fun dispatch :: "ui_event \<Rightarrow> app \<Rightarrow> app" where
  "dispatch (SetInputs h m sec) s = s\<lparr>inputHours := h, inputMinutes := m, inputSeconds := sec\<rparr>"
| "dispatch (SetMode f) s = s\<lparr>flashingMode := f\<rparr>"
| "dispatch ClickStart s = handleWindowClick (startTimer s)"
| "dispatch ClickResume s = handleWindowClick (startTimer s)"
| "dispatch ClickPause s = handleWindowClick (pauseTimer s)"
| "dispatch ClickReset s = handleWindowClick (resetTimer s)"
| "dispatch ClickDelete s = handleWindowClick (deleteTimer s)"
| "dispatch ClickElsewhere s = handleWindowClick s"
| "dispatch (Time e) s = time_step e s"

inductive reachable :: "app \<Rightarrow> bool" where
  mounted: "reachable (idle h m sec f)"
| event: "reachable s \<Longrightarrow> enabled e s \<Longrightarrow> reachable (dispatch e s)"

subsection \<open>Predicates of the specification\<close>


text \<open>The handles: every active timer is the one its variable records, handles are
  fresh, and the flags agree with the handle variables.\<close>

definition handles_inv :: "app \<Rightarrow> bool" where
  "handles_inv s =
     (map tid (ticks s) = (case intervalId s of None \<Rightarrow> [] | Some h \<Rightarrow> [h]) \<and>
      map tid (alarms s) = (case alarmTimeoutId s of None \<Rightarrow> [] | Some h \<Rightarrow> [h]) \<and>
      distinct (map tid (timers s)) \<and>
      (\<forall>t \<in> set (timers s). tid t < nextId s \<and> (cb t = TickCb \<longrightarrow> repeating t)) \<and>
      (isRunning s \<longleftrightarrow> intervalId s \<noteq> None) \<and>
      (isAlarming s \<longleftrightarrow> alarmTimeoutId s \<noteq> None) \<and>
      alarmIntervalId s = None \<and>
      (isRunning s \<longrightarrow> hasStarted s \<and> 0 < remainingTime s) \<and>
      0 \<le> remainingTime s \<and> remainingTime s \<le> originalTime s)"

definition ui_inv :: "app \<Rightarrow> bool" where
  "ui_inv s =
     (handles_inv s \<and> (isRunning s \<longrightarrow> \<not> isAlarming s) \<and> (isAlarming s \<longrightarrow> hasStarted s))"


text \<open>The specification's clamping of the three duration fields.\<close>

definition clampTo :: "int \<Rightarrow> int \<Rightarrow> int \<Rightarrow> int" where
  "clampTo lo hi x = max lo (min hi x)"

definition clampedTotal :: "app \<Rightarrow> int" where
  "clampedTotal s =
     clampTo 0 99 (inputHours s) * 3600 + clampTo 0 59 (inputMinutes s) * 60 +
     clampTo 0 59 (inputSeconds s)"

subsection \<open>States of a punctual run\<close>

text \<open>What the timer functions leave alone when only alarm timeouts fire.\<close>

definition same_session :: "app \<Rightarrow> app \<Rightarrow> bool" where
  "same_session s s' =
     (hasStarted s' = hasStarted s \<and> isRunning s' = isRunning s \<and>
      remainingTime s' = remainingTime s \<and> originalTime s' = originalTime s \<and>
      intervalId s' = intervalId s \<and> alarmCalls s' = alarmCalls s \<and>
      flashingMode s' = flashingMode s)"



section \<open>Basic facts\<close>

lemmas timer_api_defs = setInterval_def setTimeout_def setTimer_def clearInterval_def
  clearTimeout_def clearTimer_def

subsection \<open>Fields after each function\<close>

lemma pauseTimer_session [simp]:
  "remainingTime (pauseTimer s) = remainingTime s"
  "originalTime (pauseTimer s) = originalTime s"
  "hasStarted (pauseTimer s) = hasStarted s"
  "inputHours (pauseTimer s) = inputHours s"
  "inputMinutes (pauseTimer s) = inputMinutes s"
  "inputSeconds (pauseTimer s) = inputSeconds s"
  "isRunning (pauseTimer s) = False"
  "intervalId (pauseTimer s) = None"
  by (simp_all add: pauseTimer_def timer_api_defs Let_def split: option.splits)

lemma pauseTimer_alarm [simp]:
  "isAlarming (pauseTimer s) = isAlarming s"
  "alarmTimeoutId (pauseTimer s) = alarmTimeoutId s"
  "alarmIntervalId (pauseTimer s) = alarmIntervalId s"
  "flashingMode (pauseTimer s) = flashingMode s"
  "alarmCalls (pauseTimer s) = alarmCalls s"
  "clock (pauseTimer s) = clock s"
  "nextId (pauseTimer s) = nextId s"
  by (simp_all add: pauseTimer_def timer_api_defs Let_def split: option.splits)

lemma timers_pauseTimer:
  "timers (pauseTimer s) =
     (case intervalId s of None \<Rightarrow> timers s | Some h \<Rightarrow> filter (\<lambda>t. tid t \<noteq> h) (timers s))"
  by (simp add: pauseTimer_def timer_api_defs Let_def split: option.splits)

lemma startAlarm_session [simp]:
  "remainingTime (startAlarm s) = remainingTime s"
  "originalTime (startAlarm s) = originalTime s"
  "hasStarted (startAlarm s) = hasStarted s"
  "isRunning (startAlarm s) = isRunning s"
  "intervalId (startAlarm s) = intervalId s"
  "inputHours (startAlarm s) = inputHours s"
  "inputMinutes (startAlarm s) = inputMinutes s"
  "inputSeconds (startAlarm s) = inputSeconds s"
  "flashingMode (startAlarm s) = flashingMode s"
  "clock (startAlarm s) = clock s"
  "alarmCalls (startAlarm s) = alarmCalls s + 1"
  by (simp_all add: startAlarm_def timer_api_defs Let_def)

lemma startAlarm_alarm:
  "timers (startAlarm s) =
     (if flashingMode s = NoFlash then timers s
      else timers s @ [\<lparr>tid = nextId s, repeating = False, delay = 10000,
                         due = clock s + 10000, cb = AlarmCb\<rparr>])"
  "nextId (startAlarm s) = (if flashingMode s = NoFlash then nextId s else nextId s + 1)"
  "alarmTimeoutId (startAlarm s) =
     (if flashingMode s = NoFlash then alarmTimeoutId s else Some (nextId s))"
  "isAlarming (startAlarm s) = (flashingMode s \<noteq> NoFlash \<or> isAlarming s)"
  "alarmIntervalId (startAlarm s) = alarmIntervalId s"
  by (simp_all add: startAlarm_def timer_api_defs Let_def)

lemma stopAlarm_session [simp]:
  "remainingTime (stopAlarm s) = remainingTime s"
  "originalTime (stopAlarm s) = originalTime s"
  "hasStarted (stopAlarm s) = hasStarted s"
  "isRunning (stopAlarm s) = isRunning s"
  "intervalId (stopAlarm s) = intervalId s"
  "inputHours (stopAlarm s) = inputHours s"
  "inputMinutes (stopAlarm s) = inputMinutes s"
  "inputSeconds (stopAlarm s) = inputSeconds s"
  "flashingMode (stopAlarm s) = flashingMode s"
  "clock (stopAlarm s) = clock s"
  "nextId (stopAlarm s) = nextId s"
  "alarmCalls (stopAlarm s) = alarmCalls s"
  "isAlarming (stopAlarm s) = False"
  "alarmTimeoutId (stopAlarm s) = None"
  "alarmIntervalId (stopAlarm s) = None"
  by (simp_all add: stopAlarm_def timer_api_defs Let_def split: option.splits)

lemma timers_stopAlarm:
  "timers (stopAlarm s) =
     filter (\<lambda>t. Some (tid t) \<noteq> alarmTimeoutId s \<and> Some (tid t) \<noteq> alarmIntervalId s)
       (timers s)"
  by (auto simp add: stopAlarm_def timer_api_defs Let_def split: option.splits
        intro: filter_cong)

lemma tickCallback_session [simp]:
  "remainingTime (tickCallback s) =
     (if remainingTime s > 0 then remainingTime s - 1 else remainingTime s)"
  "originalTime (tickCallback s) = originalTime s"
  "hasStarted (tickCallback s) = hasStarted s"
  "clock (tickCallback s) = clock s"
  by (simp_all add: tickCallback_def Let_def)



lemma idle_start5:
  "startTimer (idle 0 0 5 f) =
      (idle 0 0 5 f)\<lparr>originalTime := 5, remainingTime := 5, hasStarted := True,
        isRunning := True, nextId := 2,
        timers := [\<lparr>tid = 1, repeating = True, delay = 1000, due = 1000, cb = TickCb\<rparr>],
        intervalId := Some 1\<rparr>"
  by (simp add: idle_def startTimer_def totalInput_def timer_api_defs)

lemma idle_start1:
  "startTimer (idle 0 0 1 f) =
      (idle 0 0 1 f)\<lparr>originalTime := 1, remainingTime := 1, hasStarted := True,
        isRunning := True, nextId := 2,
        timers := [\<lparr>tid = 1, repeating = True, delay = 1000, due = 1000, cb = TickCb\<rparr>],
        intervalId := Some 1\<rparr>"
  by (simp add: idle_def startTimer_def totalInput_def timer_api_defs)

lemma expired1:
  "tickCallback (startTimer (idle 0 0 1 NoFlash)) =
      (idle 0 0 1 NoFlash)\<lparr>originalTime := 1, remainingTime := 0, hasStarted := True,
        nextId := 2, alarmCalls := 1\<rparr>"
  unfolding idle_start1
  by (simp add: tickCallback_def pauseTimer_def startAlarm_def timer_api_defs idle_def)

subsection \<open>The handle invariant\<close>

text \<open>Each function keeps \<open>handles_inv\<close>, provided \<open>startTimer\<close> is called while the session
  is not running and \<open>startAlarm\<close> while the alarm is off.\<close>

lemma single_tid_filter:
  "map tid (filter P ts) = [h] \<Longrightarrow> distinct (map tid ts) \<Longrightarrow>
   filter (\<lambda>t. tid t \<noteq> h) ts = filter (\<lambda>t. \<not> P t) ts"
proof (induction ts)
  case Nil
  then show ?case by simp
next
  case (Cons a ts)
  show ?case
  proof (cases "P a")
    case True
    with Cons.prems have a: "tid a = h" and rest: "filter P ts = []" by auto
    from Cons.prems(2) have "tid a \<notin> tid ` set ts" by simp
    with a have "\<forall>t \<in> set ts. tid t \<noteq> h" by (metis imageI)
    then have "filter (\<lambda>t. tid t \<noteq> h) ts = ts" by simp
    moreover from rest have "filter (\<lambda>t. \<not> P t) ts = ts"
      by (simp add: filter_empty_conv)
    ultimately show ?thesis using True a by simp
  next
    case False
    with Cons.prems have m: "map tid (filter P ts) = [h]" and d: "distinct (map tid ts)"
      by auto
    have "h \<in> set (map tid (filter P ts))" using m by simp
    then have "h \<in> tid ` set ts" by auto
    with Cons.prems have "tid a \<noteq> h" by auto
    with Cons.IH [OF m d] False show ?thesis by simp
  qed
qed

lemma not_tick_iff: "(cb t \<noteq> TickCb) = (cb t = AlarmCb)"
  by (cases "cb t") simp_all

lemma not_alarm_iff: "(cb t \<noteq> AlarmCb) = (cb t = TickCb)"
  by (cases "cb t") simp_all

lemma tick_tracked:
  assumes "handles_inv s" and "t \<in> set (timers s)" and "cb t = TickCb"
  shows "intervalId s = Some (tid t) \<and> isRunning s \<and> repeating t"
proof -
  from assms(2,3) have "tid t \<in> set (map tid (ticks s))"
    by (simp add: ticks_def)
  with assms(1) have "intervalId s = Some (tid t)"
    by (simp add: handles_inv_def split: option.splits)
  with assms show ?thesis by (simp add: handles_inv_def)
qed

lemma alarm_tracked:
  assumes "handles_inv s" and "t \<in> set (timers s)" and "cb t = AlarmCb"
  shows "alarmTimeoutId s = Some (tid t) \<and> isAlarming s"
proof -
  from assms(2,3) have "tid t \<in> set (map tid (alarms s))"
    by (simp add: alarms_def)
  with assms(1) have "alarmTimeoutId s = Some (tid t)"
    by (simp add: handles_inv_def split: option.splits)
  with assms show ?thesis by (simp add: handles_inv_def)
qed

lemma handles_inv_pauseTimer: "handles_inv s \<Longrightarrow> handles_inv (pauseTimer s)"
proof (cases "intervalId s")
  case None
  assume "handles_inv s"
  with None show ?thesis
    by (simp add: handles_inv_def ticks_def alarms_def timers_pauseTimer)
next
  case (Some h)
  assume inv: "handles_inv s"
  with Some have m: "map tid (filter (\<lambda>t. cb t = TickCb) (timers s)) = [h]"
    and d: "distinct (map tid (timers s))"
    by (simp_all add: handles_inv_def ticks_def)
  have eq: "filter (\<lambda>t. tid t \<noteq> h) (timers s) = filter (\<lambda>t. cb t = AlarmCb) (timers s)"
    using single_tid_filter [OF m d] by (simp add: not_tick_iff)
  from inv Some show ?thesis
    by (simp add: handles_inv_def ticks_def alarms_def timers_pauseTimer eq distinct_map_filter
          split: option.splits)
qed

lemma handles_inv_stopAlarm: "handles_inv s \<Longrightarrow> handles_inv (stopAlarm s)"
proof (cases "alarmTimeoutId s")
  case None
  assume "handles_inv s"
  with None show ?thesis
    by (simp add: handles_inv_def ticks_def alarms_def timers_stopAlarm)
next
  case (Some h)
  assume inv: "handles_inv s"
  with Some have m: "map tid (filter (\<lambda>t. cb t = AlarmCb) (timers s)) = [h]"
    and d: "distinct (map tid (timers s))" and n: "alarmIntervalId s = None"
    by (simp_all add: handles_inv_def alarms_def)
  have eq: "filter (\<lambda>t. tid t \<noteq> h) (timers s) = filter (\<lambda>t. cb t = TickCb) (timers s)"
    using single_tid_filter [OF m d] by (simp add: not_alarm_iff)
  from inv Some n show ?thesis
    by (simp add: handles_inv_def ticks_def alarms_def timers_stopAlarm eq distinct_map_filter
          split: option.splits)
qed

lemma handles_inv_handleWindowClick: "handles_inv s \<Longrightarrow> handles_inv (handleWindowClick s)"
  by (simp add: handleWindowClick_def handles_inv_stopAlarm)

lemma handles_inv_remaining:
  "handles_inv s \<Longrightarrow> \<not> isRunning s \<Longrightarrow> 0 \<le> r \<Longrightarrow> r \<le> originalTime s \<Longrightarrow>
   handles_inv (s\<lparr>remainingTime := r\<rparr>)"
  by (simp add: handles_inv_def ticks_def alarms_def)

lemma handles_inv_resetTimer: "handles_inv s \<Longrightarrow> handles_inv (resetTimer s)"
proof -
  assume inv: "handles_inv s"
  then have "0 \<le> originalTime s" by (simp add: handles_inv_def)
  with handles_inv_remaining [OF handles_inv_pauseTimer [OF inv], of "originalTime s"]
  show ?thesis by (simp add: resetTimer_def Let_def)
qed

lemma handles_inv_deleteTimer: "handles_inv s \<Longrightarrow> handles_inv (deleteTimer s)"
proof -
  assume "handles_inv s"
  then have "handles_inv (pauseTimer s)" by (rule handles_inv_pauseTimer)
  then show ?thesis
    by (simp add: deleteTimer_def handles_inv_def ticks_def alarms_def)
qed

lemma handles_inv_startTimer:
  assumes inv: "handles_inv s" and nr: "\<not> isRunning s"
  shows "handles_inv (startTimer s)"
proof -
  from inv nr have none: "intervalId s = None" by (simp add: handles_inv_def)
  with inv have nt: "filter (\<lambda>t. cb t = TickCb) (timers s) = []"
    by (simp add: handles_inv_def ticks_def)
  from inv have fresh: "\<forall>t \<in> set (timers s). tid t < nextId s"
    by (simp add: handles_inv_def)
  then have nin: "nextId s \<notin> tid ` set (timers s)" by auto
  from inv nr none nt nin show ?thesis
    by (auto simp add: startTimer_def timer_api_defs Let_def handles_inv_def ticks_def
          alarms_def less_Suc_eq)
qed

lemma handles_inv_startAlarm:
  assumes inv: "handles_inv s" and na: "\<not> isAlarming s"
  shows "handles_inv (startAlarm s)"
proof -
  from inv na have none: "alarmTimeoutId s = None" by (simp add: handles_inv_def)
  with inv have nt: "filter (\<lambda>t. cb t = AlarmCb) (timers s) = []"
    by (simp add: handles_inv_def alarms_def)
  from inv have fresh: "\<forall>t \<in> set (timers s). tid t < nextId s"
    by (simp add: handles_inv_def)
  then have nin: "nextId s \<notin> tid ` set (timers s)" by auto
  from inv na none nt nin show ?thesis
    by (auto simp add: startAlarm_alarm handles_inv_def ticks_def alarms_def less_Suc_eq)
qed

lemma tickCallback_cases:
  "tickCallback s =
     (if 1 < remainingTime s then s\<lparr>remainingTime := remainingTime s - 1\<rparr>
      else if remainingTime s = 1 then startAlarm (pauseTimer (s\<lparr>remainingTime := 0\<rparr>))
      else startAlarm (pauseTimer s))"
  by (simp add: tickCallback_def Let_def)

lemma pauseTimer_remaining:
  "pauseTimer (s\<lparr>remainingTime := r\<rparr>) = (pauseTimer s)\<lparr>remainingTime := r\<rparr>"
  by (simp add: pauseTimer_def timer_api_defs Let_def split: option.splits)

lemma handles_inv_tickCallback:
  assumes inv: "handles_inv s" and na: "\<not> isAlarming s"
  shows "handles_inv (tickCallback s)"
proof -
  have p: "handles_inv (pauseTimer s)" using inv by (rule handles_inv_pauseTimer)
  consider "1 < remainingTime s" | "remainingTime s = 1" | "remainingTime s < 1"
    by linarith
  then show ?thesis
  proof cases
    case 1
    with inv show ?thesis
      by (simp add: tickCallback_cases handles_inv_def ticks_def alarms_def)
  next
    case 2
    from inv have "0 \<le> originalTime s" by (simp add: handles_inv_def)
    with handles_inv_remaining [OF p, of 0]
    have "handles_inv ((pauseTimer s)\<lparr>remainingTime := 0\<rparr>)" by simp
    then have "handles_inv (startAlarm ((pauseTimer s)\<lparr>remainingTime := 0\<rparr>))"
      using na by (intro handles_inv_startAlarm) simp_all
    with 2 show ?thesis by (simp add: tickCallback_cases pauseTimer_remaining)
  next
    case 3
    have "handles_inv (startAlarm (pauseTimer s))"
      using p na by (intro handles_inv_startAlarm) simp_all
    with 3 show ?thesis by (simp add: tickCallback_cases)
  qed
qed

lemma reschedule_fields [simp]:
  "isRunning (reschedule h s) = isRunning s"
  "isAlarming (reschedule h s) = isAlarming s"
  "hasStarted (reschedule h s) = hasStarted s"
  "remainingTime (reschedule h s) = remainingTime s"
  "originalTime (reschedule h s) = originalTime s"
  "alarmCalls (reschedule h s) = alarmCalls s"
  "intervalId (reschedule h s) = intervalId s"
  "alarmTimeoutId (reschedule h s) = alarmTimeoutId s"
  "clock (reschedule h s) = clock s"
  "flashingMode (reschedule h s) = flashingMode s"
  "nextId (reschedule h s) = nextId s"
  by (simp_all add: reschedule_def)

lemma clearTimer_fields [simp]:
  "isRunning (clearTimer h s) = isRunning s"
  "isAlarming (clearTimer h s) = isAlarming s"
  "hasStarted (clearTimer h s) = hasStarted s"
  "remainingTime (clearTimer h s) = remainingTime s"
  "originalTime (clearTimer h s) = originalTime s"
  "alarmCalls (clearTimer h s) = alarmCalls s"
  "intervalId (clearTimer h s) = intervalId s"
  "alarmTimeoutId (clearTimer h s) = alarmTimeoutId s"
  "clock (clearTimer h s) = clock s"
  "flashingMode (clearTimer h s) = flashingMode s"
  "nextId (clearTimer h s) = nextId s"
  by (simp_all add: clearTimer_def)

lemma filter_map_same:
  "(\<And>t. tid (f t) = tid t) \<Longrightarrow> (\<And>t. cb (f t) = cb t) \<Longrightarrow>
   map tid (filter (\<lambda>t. cb t = c) (map f ts)) = map tid (filter (\<lambda>t. cb t = c) ts)"
  by (induction ts) simp_all

lemma ball_map_same:
  "(\<And>t. Q (f t) = Q t) \<Longrightarrow> (\<forall>t \<in> set (map f ts). Q t) = (\<forall>t \<in> set ts. Q t)"
  by (induction ts) simp_all

lemma handles_inv_reschedule: "handles_inv s \<Longrightarrow> handles_inv (reschedule h s)"
proof -
  let ?f = "\<lambda>t. if tid t = h then t\<lparr>due := clock s + delay t\<rparr> else t"
  have t: "\<And>t. tid (?f t) = tid t" and c: "\<And>t. cb (?f t) = cb t"
    by simp_all
  have q: "\<And>t. (tid (?f t) < nextId s \<and> (cb (?f t) = TickCb \<longrightarrow> repeating (?f t))) =
      (tid t < nextId s \<and> (cb t = TickCb \<longrightarrow> repeating t))"
    by simp
  have m: "map tid (map ?f (timers s)) = map tid (timers s)"
    by (simp add: comp_def)
  have b: "(\<forall>t \<in> set (map ?f (timers s)).
        tid t < nextId s \<and> (cb t = TickCb \<longrightarrow> repeating t)) =
      (\<forall>t \<in> set (timers s). tid t < nextId s \<and> (cb t = TickCb \<longrightarrow> repeating t))"
    by (rule ball_map_same [of "\<lambda>t. tid t < nextId s \<and> (cb t = TickCb \<longrightarrow> repeating t)" ?f])
      (rule q)
  have tk: "map tid (ticks (reschedule h s)) = map tid (ticks s)"
    unfolding ticks_def reschedule_def using filter_map_same [of ?f, OF t c] by simp
  have al: "map tid (alarms (reschedule h s)) = map tid (alarms s)"
    unfolding alarms_def reschedule_def using filter_map_same [of ?f, OF t c] by simp
  have tm: "timers (reschedule h s) = map ?f (timers s)" and n: "nextId (reschedule h s) = nextId s"
    and ai: "alarmIntervalId (reschedule h s) = alarmIntervalId s"
    by (simp_all add: reschedule_def)
  assume "handles_inv s"
  then show ?thesis
    unfolding handles_inv_def tk al tm m b n ai reschedule_fields .
qed

lemma find_SomeD: "find P xs = Some x \<Longrightarrow> x \<in> set xs \<and> P x"
  by (induction xs) (auto split: if_splits)

lemma clearTimer_stopAlarm:
  "alarmTimeoutId s = Some h \<Longrightarrow> clearTimer h (stopAlarm s) = stopAlarm s"
proof -
  assume a: "alarmTimeoutId s = Some h"
  have "timers (stopAlarm s) = filter (\<lambda>t. tid t \<noteq> h) (timers (stopAlarm s))"
    by (auto simp add: timers_stopAlarm a intro: filter_cong)
  then show ?thesis by (simp add: clearTimer_def)
qed

lemma tickCallback_flags:
  "isRunning (tickCallback s) = (isRunning s \<and> 1 < remainingTime s)"
  "isAlarming (tickCallback s) =
     (isAlarming s \<or> (remainingTime s \<le> 1 \<and> flashingMode s \<noteq> NoFlash))"
  by (auto simp add: tickCallback_cases startAlarm_alarm)

lemma ui_inv_fire:
  assumes inv: "ui_inv s"
  shows "ui_inv (fire h s)"
proof (cases "find (\<lambda>t. tid t = h) (timers s)")
  case None
  with inv show ?thesis by (simp add: fire_def)
next
  case (Some t)
  then have t: "t \<in> set (timers s)" "tid t = h" by (auto dest: find_SomeD)
  from inv have hi: "handles_inv s" by (simp add: ui_inv_def)
  show ?thesis
  proof (cases "clock s < due t")
    case True
    with Some inv show ?thesis by (simp add: fire_def)
  next
    case False
    show ?thesis
    proof (cases "cb t")
      case TickCb
      with tick_tracked [OF hi t(1)] have run: "isRunning s" and rep: "repeating t"
        by simp_all
      with inv have na: "\<not> isAlarming s" and st: "hasStarted s"
        by (auto simp add: ui_inv_def handles_inv_def)
      have "handles_inv (reschedule h (tickCallback s))"
        by (intro handles_inv_reschedule handles_inv_tickCallback hi na)
      with Some False TickCb rep na st show ?thesis
        by (simp add: fire_def run_cb_def ui_inv_def tickCallback_flags)
    next
      case AlarmCb
      with alarm_tracked [OF hi t(1)] t(2) have a: "alarmTimeoutId s = Some h" by simp
      have s1: "handles_inv (stopAlarm s)" using hi by (rule handles_inv_stopAlarm)
      then have s2: "handles_inv (reschedule h (stopAlarm s))"
        by (rule handles_inv_reschedule)
      from inv have r: "isRunning s \<longrightarrow> \<not> isAlarming s" by (simp add: ui_inv_def)
      from Some False AlarmCb s1 s2 show ?thesis
        by (simp add: fire_def run_cb_def alarmCallback_def ui_inv_def Let_def
              clearTimer_stopAlarm [OF a])
    qed
  qed
qed

lemma ui_inv_click: "handles_inv s \<Longrightarrow> ui_inv (handleWindowClick s)"
  by (cases "isAlarming s")
    (simp_all add: ui_inv_def handleWindowClick_def handles_inv_stopAlarm)

lemma handles_inv_frame [simp]:
  "handles_inv (s\<lparr>inputHours := h, inputMinutes := m, inputSeconds := sec\<rparr>) = handles_inv s"
  "handles_inv (s\<lparr>flashingMode := f\<rparr>) = handles_inv s"
  "handles_inv (elapse d s) = handles_inv s"
  by (simp_all add: handles_inv_def ticks_def alarms_def elapse_def)

lemma ui_inv_idle: "ui_inv (idle h m sec f)"
  by (simp add: ui_inv_def handles_inv_def idle_def ticks_def alarms_def)

lemma ui_inv_dispatch:
  assumes inv: "ui_inv s" and en: "enabled e s"
  shows "ui_inv (dispatch e s)"
proof -
  from inv have hi: "handles_inv s" by (simp add: ui_inv_def)
  show ?thesis
  proof (cases e)
    case (SetInputs h m sec)
    with inv show ?thesis by (simp add: ui_inv_def)
  next
    case (SetMode f)
    with inv show ?thesis by (simp add: ui_inv_def)
  next
    case ClickStart
    with en hi have nr: "\<not> isRunning s" by (auto simp add: handles_inv_def)
    have "ui_inv (handleWindowClick (startTimer s))"
      by (intro ui_inv_click handles_inv_startTimer hi nr)
    with ClickStart show ?thesis by simp
  next
    case ClickResume
    with en have nr: "\<not> isRunning s" by simp
    have "ui_inv (handleWindowClick (startTimer s))"
      by (intro ui_inv_click handles_inv_startTimer hi nr)
    with ClickResume show ?thesis by simp
  next
    case ClickPause
    have "ui_inv (handleWindowClick (pauseTimer s))"
      by (intro ui_inv_click handles_inv_pauseTimer hi)
    with ClickPause show ?thesis by simp
  next
    case ClickReset
    have "ui_inv (handleWindowClick (resetTimer s))"
      by (intro ui_inv_click handles_inv_resetTimer hi)
    with ClickReset show ?thesis by simp
  next
    case ClickDelete
    have "ui_inv (handleWindowClick (deleteTimer s))"
      by (intro ui_inv_click handles_inv_deleteTimer hi)
    with ClickDelete show ?thesis by simp
  next
    case ClickElsewhere
    have "ui_inv (handleWindowClick s)"
      by (intro ui_inv_click hi)
    with ClickElsewhere show ?thesis by simp
  next
    case (Time te)
    show ?thesis
    proof (cases te)
      case (Elapse d)
      with inv Time show ?thesis
        by (simp add: ui_inv_def) (simp add: elapse_def)
    next
      case (Fire h)
      with inv Time show ?thesis by (simp add: ui_inv_fire)
    qed
  qed
qed

lemma reachable_ui_inv: "reachable s \<Longrightarrow> ui_inv s"
  by (induction rule: reachable.induct) (simp_all add: ui_inv_idle ui_inv_dispatch)

lemma reachable_unstarted_no_timers:
  assumes "reachable s" and "\<not> hasStarted s"
  shows "timers s = []"
proof -
  from assms(1) have ui: "ui_inv s" by (rule reachable_ui_inv)
  then have hi: "handles_inv s" by (simp add: ui_inv_def)
  have "t \<notin> set (timers s)" for t
  proof
    assume t: "t \<in> set (timers s)"
    show False
    proof (cases "cb t")
      case TickCb
      with tick_tracked [OF hi t] hi assms(2) show False
        by (simp add: handles_inv_def)
    next
      case AlarmCb
      with alarm_tracked [OF hi t] ui assms(2) show False
        by (simp add: ui_inv_def)
    qed
  qed
  then show ?thesis by (cases "timers s") auto
qed

subsection \<open>Without a tick interval\<close>

text \<open>While no tick interval is active, whatever fires is an alarm timeout, and the
  session stays as it is.\<close>

lemma same_session_refl [simp]: "same_session s s"
  by (simp add: same_session_def)

lemma same_session_trans: "same_session s s' \<Longrightarrow> same_session s' s'' \<Longrightarrow> same_session s s''"
  by (simp add: same_session_def)

lemma ticks_stopAlarm: "ticks (stopAlarm s) =
    filter (\<lambda>t. Some (tid t) \<noteq> alarmTimeoutId s \<and> Some (tid t) \<noteq> alarmIntervalId s) (ticks s)"
  by (simp add: ticks_def timers_stopAlarm conj_commute)

lemma ticks_reschedule: "ticks s = [] \<Longrightarrow> ticks (reschedule h s) = []"
  by (auto simp add: ticks_def reschedule_def filter_empty_conv)

lemma ticks_clearTimer: "ticks s = [] \<Longrightarrow> ticks (clearTimer h s) = []"
  by (auto simp add: ticks_def clearTimer_def filter_empty_conv)

lemma fire_no_tick:
  assumes nt: "ticks s = []"
  shows "ticks (fire h s) = [] \<and> same_session s (fire h s)"
proof (cases "find (\<lambda>t. tid t = h) (timers s)")
  case None
  with nt show ?thesis by (simp add: fire_def)
next
  case (Some t)
  then have "t \<in> set (timers s)" by (auto dest: find_SomeD)
  with nt have c: "cb t = AlarmCb"
    by (cases "cb t") (auto simp add: ticks_def filter_empty_conv)
  have st: "ticks (stopAlarm s) = []" using nt by (simp add: ticks_stopAlarm)
  from Some c st nt show ?thesis
    by (simp add: fire_def run_cb_def alarmCallback_def Let_def ticks_reschedule
          ticks_clearTimer same_session_def)
qed

lemma fire_all_no_tick:
  "ticks s = [] \<Longrightarrow> ticks (fire_all hs s) = [] \<and> same_session s (fire_all hs s)"
proof (induction hs arbitrary: s)
  case Nil
  then show ?case by simp
next
  case (Cons h hs)
  from fire_no_tick [OF Cons.prems, of h]
  have a: "ticks (fire h s) = []" and b: "same_session s (fire h s)" by simp_all
  from Cons.IH [OF a] b show ?case
    by (auto intro: same_session_trans)
qed

lemma step_ms_no_tick:
  "ticks s = [] \<Longrightarrow> ticks (step_ms s) = [] \<and> same_session s (step_ms s)"
proof -
  assume nt: "ticks s = []"
  then have a: "ticks (elapse 1 s) = []" by (simp add: ticks_def elapse_def)
  have b: "same_session s (elapse 1 s)" by (simp add: same_session_def elapse_def)
  from fire_all_no_tick [OF a, of "due_now (elapse 1 s)"] b show ?thesis
    by (auto simp add: step_ms_def Let_def intro: same_session_trans)
qed

lemma advance_no_tick:
  "ticks s = [] \<Longrightarrow> ticks (advance n s) = [] \<and> same_session s (advance n s)"
proof (induction n arbitrary: s)
  case 0
  then show ?case by simp
next
  case (Suc n)
  from step_ms_no_tick [OF Suc.prems]
  have a: "ticks (step_ms s) = []" and b: "same_session s (step_ms s)" by simp_all
  from Suc.IH [OF a] b show ?case
    by (auto intro: same_session_trans)
qed

lemma run_time_no_tick:
  "ticks s = [] \<Longrightarrow> ticks (run_time es s) = [] \<and> same_session s (run_time es s)"
proof (induction es arbitrary: s)
  case Nil
  then show ?case by simp
next
  case (Cons e es)
  have "ticks (time_step e s) = [] \<and> same_session s (time_step e s)"
  proof (cases e)
    case (Elapse d)
    with Cons.prems show ?thesis
      by (simp add: ticks_def elapse_def same_session_def)
  next
    case (Fire h)
    with fire_no_tick [OF Cons.prems, of h] show ?thesis by simp
  qed
  then have a: "ticks (time_step e s) = []" and b: "same_session s (time_step e s)"
    by simp_all
  from Cons.IH [OF a] b show ?case
    by (auto intro: same_session_trans)
qed

lemma pauseTimer_disarms:
  assumes "\<forall>t \<in> set (timers s). cb t = TickCb \<longrightarrow> intervalId s = Some (tid t)"
  shows "ticks (pauseTimer s) = []"
  using assms
  by (cases "intervalId s") (auto simp add: ticks_def timers_pauseTimer filter_empty_conv)

lemma pauseTimer_idem: "pauseTimer (pauseTimer s) = pauseTimer s"
  by (simp add: pauseTimer_def timer_api_defs Let_def split: option.splits)

lemma reachable_ticks_tracked:
  assumes "reachable s"
  shows "\<forall>t \<in> set (timers s). cb t = TickCb \<longrightarrow> intervalId s = Some (tid t)"
proof -
  from assms have "handles_inv s" using reachable_ui_inv by (simp add: ui_inv_def)
  then show ?thesis by (auto dest: tick_tracked)
qed

subsection \<open>Punctual runs\<close>

lemma elapse_elapse: "elapse a (elapse b s) = elapse (b + a) s"
  by (simp add: elapse_def)

lemma elapse_0 [simp]: "elapse 0 s = s"
  by (simp add: elapse_def)

lemma advance_quiet:
  "\<forall>t \<in> set (timers s). clock s + n < due t \<Longrightarrow> advance n s = elapse n s"
proof (induction n arbitrary: s)
  case 0
  then show ?case by simp
next
  case (Suc n)
  then have "filter (\<lambda>t. due t \<le> Suc (clock s)) (timers s) = []"
    by (auto simp add: filter_empty_conv)
  then have st: "step_ms s = elapse 1 s"
    by (simp add: step_ms_def due_now_def elapse_def)
  from Suc.prems have "\<forall>t \<in> set (timers (elapse 1 s)). clock (elapse 1 s) + n < due t"
    by (simp add: elapse_def)
  from Suc.IH [OF this] st show ?case by (simp add: elapse_elapse)
qed

lemma advance_add: "advance (m + n) s = advance n (advance m s)"
  by (induction m arbitrary: s) simp_all

lemma advance_1: "advance 1 s = step_ms s"
  by simp











subsection \<open>The deadline formula\<close>

lemma clock_fire [simp]: "clock (fire h s) = clock s"
  by (simp add: fire_def run_cb_def alarmCallback_def Let_def split: option.splits callback.splits)

lemma clock_fire_all [simp]: "clock (fire_all hs s) = clock s"
  by (induction hs arbitrary: s) simp_all





subsection \<open>The alarm\<close>

lemma stopAlarm_idem: "stopAlarm (stopAlarm s) = stopAlarm s"
  by (simp add: stopAlarm_def timer_api_defs Let_def split: option.splits)

lemma stopAlarm_inactive:
  "\<not> isAlarming s \<Longrightarrow> alarmTimeoutId s = None \<Longrightarrow> alarmIntervalId s = None \<Longrightarrow>
   stopAlarm s = s"
  by (simp add: stopAlarm_def Let_def)

lemma clearTimeout_absent: "\<not> armed h s \<Longrightarrow> clearTimeout h s = s"
proof -
  assume "\<not> armed h s"
  then have "filter (\<lambda>t. tid t \<noteq> h) (timers s) = timers s"
    by (auto simp add: armed_def filter_id_conv)
  then show ?thesis by (simp add: clearTimeout_def clearTimer_def)
qed

lemma alarm_pending:
  assumes m: "flashingMode s \<noteq> NoFlash" and nt: "timers s = []" and n: "n < 10000"
  shows "advance n (startAlarm s) = elapse n (startAlarm s)"
  using m nt n by (intro advance_quiet) (simp add: startAlarm_alarm)

lemma alarm_fires:
  assumes m: "flashingMode s \<noteq> NoFlash" and nt: "timers s = []"
  shows "\<not> isAlarming (advance 10000 (startAlarm s)) \<and>
         timers (advance 10000 (startAlarm s)) = [] \<and>
         alarmTimeoutId (advance 10000 (startAlarm s)) = None"
proof -
  have "advance 10000 (startAlarm s) = advance 1 (advance 9999 (startAlarm s))"
    using advance_add [of 9999 1] by simp
  also have "\<dots> = step_ms (elapse 9999 (startAlarm s))"
    using alarm_pending [OF m nt, of 9999] by (simp add: advance_1)
  finally have e: "advance 10000 (startAlarm s) = step_ms (elapse 9999 (startAlarm s))" .
  show ?thesis
    unfolding e using m nt
    by (simp add: step_ms_def elapse_def due_now_def startAlarm_alarm fire_def run_cb_def
          alarmCallback_def timers_stopAlarm clearTimer_def)
qed

lemma alarm_click:
  assumes m: "flashingMode s \<noteq> NoFlash" and nt: "timers s = []" and n: "n < 10000"
  shows "\<not> isAlarming (handleWindowClick (advance n (startAlarm s))) \<and>
         timers (handleWindowClick (advance n (startAlarm s))) = [] \<and>
         alarmTimeoutId (handleWindowClick (advance n (startAlarm s))) = None \<and>
         advance k (handleWindowClick (advance n (startAlarm s))) =
           elapse k (handleWindowClick (advance n (startAlarm s)))"
proof -
  let ?c = "handleWindowClick (advance n (startAlarm s))"
  have c: "?c = stopAlarm (elapse n (startAlarm s))"
    using m by (simp add: alarm_pending [OF m nt n] handleWindowClick_def elapse_def
        startAlarm_alarm)
  have t: "timers ?c = []"
    unfolding c using m nt by (simp add: timers_stopAlarm elapse_def startAlarm_alarm)
  then have "advance k ?c = elapse k ?c" by (intro advance_quiet) simp
  with t show ?thesis by (simp add: c)
qed

lemma expired1_fast:
  "tickCallback (startTimer (idle 0 0 1 Fast)) =
      (idle 0 0 1 Fast)\<lparr>originalTime := 1, remainingTime := 0, hasStarted := True,
        nextId := 3, alarmCalls := 1, isAlarming := True, alarmTimeoutId := Some 2,
        timers := [\<lparr>tid = 2, repeating = False, delay = 10000, due = 10000, cb = AlarmCb\<rparr>]\<rparr>"
  unfolding idle_start1
  by (simp add: tickCallback_def pauseTimer_def startAlarm_def timer_api_defs idle_def)

lemma startTimer_isAlarming [simp]: "isAlarming (startTimer s) = isAlarming s"
  by (simp add: startTimer_def timer_api_defs Let_def)

section \<open>The claims\<close>








text \<open>
  C4. \<open>startAlarm\<close> with mode none leaves the alarm as it is; with any other mode it sets
  \<open>isAlarming\<close> and arms a timeout of 10000 ms. When nothing else is armed, \<open>isAlarming\<close>
  holds at every instant before 10000 ms and is false at 10000 ms; a click before that
  clears \<open>isAlarming\<close> at once and removes the timeout, which then never fires (a click
  while the alarm is on always clears the flag and the recorded timeout).
  \<open>stopAlarm\<close> is idempotent and changes nothing when the alarm is inactive, and clearing
  a handle that is not active changes nothing.
\<close>

theorem alarm_protocol:
  "(flashingMode s = NoFlash \<longrightarrow>
      isAlarming (startAlarm s) = isAlarming s \<and> timers (startAlarm s) = timers s \<and>
      alarmTimeoutId (startAlarm s) = alarmTimeoutId s) \<and>
   (flashingMode s \<noteq> NoFlash \<longrightarrow>
      isAlarming (startAlarm s) \<and> alarmTimeoutId (startAlarm s) = Some (nextId s) \<and>
      timers (startAlarm s) =
        timers s @ [\<lparr>tid = nextId s, repeating = False, delay = 10000,
                      due = clock s + 10000, cb = AlarmCb\<rparr>]) \<and>
   (flashingMode s \<noteq> NoFlash \<and> timers s = [] \<longrightarrow>
      (\<forall>n < 10000. isAlarming (advance n (startAlarm s))) \<and>
      \<not> isAlarming (advance 10000 (startAlarm s)) \<and>
      timers (advance 10000 (startAlarm s)) = [] \<and>
      (\<forall>n < 10000.
         \<not> isAlarming (handleWindowClick (advance n (startAlarm s))) \<and>
         timers (handleWindowClick (advance n (startAlarm s))) = [] \<and>
         alarmTimeoutId (handleWindowClick (advance n (startAlarm s))) = None \<and>
         (\<forall>k. advance k (handleWindowClick (advance n (startAlarm s))) =
               elapse k (handleWindowClick (advance n (startAlarm s)))))) \<and>
   stopAlarm (stopAlarm s) = stopAlarm s \<and>
   (\<not> isAlarming s \<and> alarmTimeoutId s = None \<and> alarmIntervalId s = None \<longrightarrow>
      stopAlarm s = s) \<and>
   (\<not> isAlarming s \<longrightarrow> handleWindowClick s = s) \<and>
   (\<not> armed h s \<longrightarrow> clearTimeout h s = s) \<and>
   (isAlarming s \<and> alarmTimeoutId s = Some h \<longrightarrow>
      \<not> isAlarming (handleWindowClick s) \<and> alarmTimeoutId (handleWindowClick s) = None \<and>
      \<not> armed h (handleWindowClick s))"
proof -
  have a: "flashingMode s = NoFlash \<longrightarrow>
      isAlarming (startAlarm s) = isAlarming s \<and> timers (startAlarm s) = timers s \<and>
      alarmTimeoutId (startAlarm s) = alarmTimeoutId s"
    by (simp add: startAlarm_alarm)
  have b: "flashingMode s \<noteq> NoFlash \<longrightarrow>
      isAlarming (startAlarm s) \<and> alarmTimeoutId (startAlarm s) = Some (nextId s) \<and>
      timers (startAlarm s) =
        timers s @ [\<lparr>tid = nextId s, repeating = False, delay = 10000,
                      due = clock s + 10000, cb = AlarmCb\<rparr>]"
    by (simp add: startAlarm_alarm)
  have c: "flashingMode s \<noteq> NoFlash \<and> timers s = [] \<longrightarrow>
      (\<forall>n < 10000. isAlarming (advance n (startAlarm s))) \<and>
      \<not> isAlarming (advance 10000 (startAlarm s)) \<and>
      timers (advance 10000 (startAlarm s)) = [] \<and>
      (\<forall>n < 10000.
         \<not> isAlarming (handleWindowClick (advance n (startAlarm s))) \<and>
         timers (handleWindowClick (advance n (startAlarm s))) = [] \<and>
         alarmTimeoutId (handleWindowClick (advance n (startAlarm s))) = None \<and>
         (\<forall>k. advance k (handleWindowClick (advance n (startAlarm s))) =
               elapse k (handleWindowClick (advance n (startAlarm s)))))"
  proof
    assume h: "flashingMode s \<noteq> NoFlash \<and> timers s = []"
    then have m: "flashingMode s \<noteq> NoFlash" and nt: "timers s = []" by simp_all
    have p: "isAlarming (advance n (startAlarm s))" if "n < 10000" for n
      using m that by (simp add: alarm_pending [OF m nt that] elapse_def startAlarm_alarm)
    have q: "\<not> isAlarming (handleWindowClick (advance n (startAlarm s))) \<and>
         timers (handleWindowClick (advance n (startAlarm s))) = [] \<and>
         alarmTimeoutId (handleWindowClick (advance n (startAlarm s))) = None \<and>
         (\<forall>k. advance k (handleWindowClick (advance n (startAlarm s))) =
               elapse k (handleWindowClick (advance n (startAlarm s))))"
      if "n < 10000" for n
      using alarm_click [OF m nt that] by blast
    from p q alarm_fires [OF m nt]
    show "(\<forall>n < 10000. isAlarming (advance n (startAlarm s))) \<and>
      \<not> isAlarming (advance 10000 (startAlarm s)) \<and>
      timers (advance 10000 (startAlarm s)) = [] \<and>
      (\<forall>n < 10000.
         \<not> isAlarming (handleWindowClick (advance n (startAlarm s))) \<and>
         timers (handleWindowClick (advance n (startAlarm s))) = [] \<and>
         alarmTimeoutId (handleWindowClick (advance n (startAlarm s))) = None \<and>
         (\<forall>k. advance k (handleWindowClick (advance n (startAlarm s))) =
               elapse k (handleWindowClick (advance n (startAlarm s)))))"
      by blast
  qed
  have d: "stopAlarm (stopAlarm s) = stopAlarm s" by (rule stopAlarm_idem)
  have e: "\<not> isAlarming s \<and> alarmTimeoutId s = None \<and> alarmIntervalId s = None \<longrightarrow>
      stopAlarm s = s"
    by (simp add: stopAlarm_inactive)
  have f: "\<not> isAlarming s \<longrightarrow> handleWindowClick s = s"
    by (simp add: handleWindowClick_def)
  have g: "\<not> armed h s \<longrightarrow> clearTimeout h s = s"
    by (simp add: clearTimeout_absent)
  have i: "isAlarming s \<and> alarmTimeoutId s = Some h \<longrightarrow>
      \<not> isAlarming (handleWindowClick s) \<and> alarmTimeoutId (handleWindowClick s) = None \<and>
      \<not> armed h (handleWindowClick s)"
    by (simp add: handleWindowClick_def armed_def timers_stopAlarm)
  from a b c d e f g i show ?thesis by (intro conjI)
qed

theorem alarm_protocol_witness:
  "flashingMode (idle 0 0 5 NoFlash) = NoFlash \<and>
   \<not> isAlarming (startAlarm (idle 0 0 5 NoFlash)) \<and>
   timers (startAlarm (idle 0 0 5 NoFlash)) = [] \<and>
   flashingMode (idle 0 0 5 Fast) \<noteq> NoFlash \<and> timers (idle 0 0 5 Fast) = [] \<and>
   isAlarming (startAlarm (idle 0 0 5 Fast)) \<and>
   alarmTimeoutId (startAlarm (idle 0 0 5 Fast)) = Some 1 \<and>
   isAlarming (advance 9999 (startAlarm (idle 0 0 5 Fast))) \<and>
   \<not> isAlarming (advance 10000 (startAlarm (idle 0 0 5 Fast))) \<and>
   \<not> isAlarming (handleWindowClick (advance 3000 (startAlarm (idle 0 0 5 Fast)))) \<and>
   timers (handleWindowClick (advance 3000 (startAlarm (idle 0 0 5 Fast)))) = [] \<and>
   \<not> isAlarming (idle 0 0 5 Fast) \<and> stopAlarm (idle 0 0 5 Fast) = idle 0 0 5 Fast \<and>
   handleWindowClick (idle 0 0 5 Fast) = idle 0 0 5 Fast \<and>
   \<not> armed 7 (idle 0 0 5 Fast) \<and> clearTimeout 7 (idle 0 0 5 Fast) = idle 0 0 5 Fast \<and>
   \<not> armed 1 (handleWindowClick (startAlarm (idle 0 0 5 Fast)))"
proof -
  have i: "flashingMode (idle 0 0 5 NoFlash) = NoFlash" "isAlarming (idle 0 0 5 NoFlash) = False"
    "timers (idle 0 0 5 NoFlash) = []"
    by (simp_all add: idle_def)
  have j: "flashingMode (idle 0 0 5 Fast) \<noteq> NoFlash" "timers (idle 0 0 5 Fast) = []"
    "nextId (idle 0 0 5 Fast) = 1" "\<not> isAlarming (idle 0 0 5 Fast)"
    "alarmTimeoutId (idle 0 0 5 Fast) = None" "alarmIntervalId (idle 0 0 5 Fast) = None"
    "\<not> armed 7 (idle 0 0 5 Fast)"
    by (simp_all add: idle_def armed_def)
  have lt: "(9999::nat) < 10000" "(3000::nat) < 10000" by simp_all
  note n = alarm_protocol [of "idle 0 0 5 NoFlash" 7, THEN conjunct1, THEN mp, OF i(1)]
  note t = alarm_protocol [of "idle 0 0 5 Fast" 7]
  note b = t [THEN conjunct2, THEN conjunct1, THEN mp, OF j(1)]
  note c = t [THEN conjunct2, THEN conjunct2, THEN conjunct1, THEN mp, OF conjI, OF j(1) j(2)]
  note p = c [THEN conjunct1, THEN spec, of 9999, THEN mp, OF lt(1)]
  note f = c [THEN conjunct2, THEN conjunct1]
  note q = c [THEN conjunct2, THEN conjunct2, THEN conjunct2, THEN spec, of 3000, THEN mp,
      OF lt(2)]
  note r = t [THEN conjunct2, THEN conjunct2, THEN conjunct2, THEN conjunct2]
  note e = r [THEN conjunct1, THEN mp, OF conjI, OF j(4) conjI, OF j(5) j(6)]
  note g = r [THEN conjunct2, THEN conjunct1, THEN mp, OF j(4)]
  note k = r [THEN conjunct2, THEN conjunct2, THEN conjunct1, THEN mp, OF j(7)]
  note u = alarm_protocol [of "startAlarm (idle 0 0 5 Fast)" 1]
  from n have n': "\<not> isAlarming (startAlarm (idle 0 0 5 NoFlash))"
    "timers (startAlarm (idle 0 0 5 NoFlash)) = []"
    by (simp_all add: i)
  from b have b': "isAlarming (startAlarm (idle 0 0 5 Fast))"
    "alarmTimeoutId (startAlarm (idle 0 0 5 Fast)) = Some 1"
    by (simp_all add: j)
  from q have q': "\<not> isAlarming (handleWindowClick (advance 3000 (startAlarm (idle 0 0 5 Fast))))"
    "timers (handleWindowClick (advance 3000 (startAlarm (idle 0 0 5 Fast)))) = []"
    by simp_all
  from u b' have w: "\<not> armed 1 (handleWindowClick (startAlarm (idle 0 0 5 Fast)))"
    by blast
  show ?thesis
    by (intro conjI i(1) n' j(1) j(2) b' p f q' j(4) e g j(7) k w)
qed

text \<open>
  C5. When every active tick interval is the one recorded in \<open>intervalId\<close>, then after
  \<open>pauseTimer\<close> no tick interval is active and \<open>remainingTime\<close> stays what it was, under
  punctual delivery for any length of time and under any sequence of elapsing time and
  firing attempts, the handle armed before the pause included. \<open>pauseTimer\<close> is idempotent.
\<close>

theorem pause_freezes:
  assumes "\<forall>t \<in> set (timers s). cb t = TickCb \<longrightarrow> intervalId s = Some (tid t)"
  shows "remainingTime (pauseTimer s) = remainingTime s \<and>
         \<not> isRunning (pauseTimer s) \<and> ticks (pauseTimer s) = [] \<and>
         (\<forall>n. remainingTime (advance n (pauseTimer s)) = remainingTime s) \<and>
         (\<forall>es. remainingTime (run_time es (pauseTimer s)) = remainingTime s) \<and>
         pauseTimer (pauseTimer s) = pauseTimer s"
proof -
  have nt: "ticks (pauseTimer s) = []" using assms by (rule pauseTimer_disarms)
  have a: "remainingTime (advance n (pauseTimer s)) = remainingTime s" for n
    using advance_no_tick [OF nt, of n] by (simp add: same_session_def)
  have b: "remainingTime (run_time es (pauseTimer s)) = remainingTime s" for es
    using run_time_no_tick [OF nt, of es] by (simp add: same_session_def)
  from nt a b show ?thesis by (simp add: pauseTimer_idem)
qed

theorem pause_freezes_witness:
  "intervalId (startTimer (idle 0 0 5 Fast)) = Some 1 \<and>
   map tid (timers (startTimer (idle 0 0 5 Fast))) = [1] \<and>
   remainingTime (pauseTimer (startTimer (idle 0 0 5 Fast))) = 5 \<and>
   ticks (pauseTimer (startTimer (idle 0 0 5 Fast))) = [] \<and>
   remainingTime (advance 60000 (pauseTimer (startTimer (idle 0 0 5 Fast)))) = 5 \<and>
   remainingTime
     (run_time [Elapse 1000, Fire 1, Elapse 5000, Fire 1]
        (pauseTimer (startTimer (idle 0 0 5 Fast)))) = 5"
proof -
  let ?s = "startTimer (idle 0 0 5 Fast)"
  have v: "intervalId ?s = Some 1" "map tid (timers ?s) = [1]" "remainingTime ?s = 5"
    unfolding idle_start5 by (simp_all add: idle_def)
  have h: "\<forall>t \<in> set (timers ?s). cb t = TickCb \<longrightarrow> intervalId ?s = Some (tid t)"
    unfolding idle_start5 by (simp add: idle_def)
  note t = pause_freezes [OF h]
  note k = t [THEN conjunct2, THEN conjunct2]
  from t v have a: "remainingTime (pauseTimer ?s) = 5" by simp
  from k [THEN conjunct2, THEN conjunct1, THEN spec, of 60000] v
  have b: "remainingTime (advance 60000 (pauseTimer ?s)) = 5" by simp
  from k [THEN conjunct2, THEN conjunct2, THEN conjunct1, THEN spec,
      of "[Elapse 1000, Fire 1, Elapse 5000, Fire 1]"] v
  have c: "remainingTime
     (run_time [Elapse 1000, Fire 1, Elapse 5000, Fire 1] (pauseTimer ?s)) = 5"
    by simp
  show ?thesis by (intro conjI v(1) v(2) a k [THEN conjunct1] b c)
qed

text \<open>
  C6, as amended. \<open>canStart\<close> is true iff a session exists and \<open>remainingTime > 0\<close>, or no
  session exists and at least one of the three input fields is positive; when no field is
  negative, the latter is the same as the total input duration being nonzero. Whenever
  \<open>canStart\<close> is false, \<open>startTimer\<close> returns the state unchanged, and so it does for a
  non-positive total without a session and for a session whose \<open>remainingTime\<close> is 0.
\<close>

theorem canStart_and_noop:
  "(canStart s \<longleftrightarrow>
      (hasStarted s \<and> remainingTime s > 0) \<or>
      (\<not> hasStarted s \<and> (inputHours s > 0 \<or> inputMinutes s > 0 \<or> inputSeconds s > 0))) \<and>
   (0 \<le> inputHours s \<and> 0 \<le> inputMinutes s \<and> 0 \<le> inputSeconds s \<longrightarrow>
      (canStart s \<longleftrightarrow>
        (hasStarted s \<and> remainingTime s > 0) \<or> (\<not> hasStarted s \<and> totalInput s \<noteq> 0))) \<and>
   (\<not> canStart s \<longrightarrow> startTimer s = s) \<and>
   (\<not> hasStarted s \<and> totalInput s \<le> 0 \<longrightarrow> startTimer s = s) \<and>
   (hasStarted s \<and> remainingTime s = 0 \<longrightarrow> startTimer s = s)"
proof (intro conjI)
  show "canStart s \<longleftrightarrow>
      (hasStarted s \<and> remainingTime s > 0) \<or>
      (\<not> hasStarted s \<and> (inputHours s > 0 \<or> inputMinutes s > 0 \<or> inputSeconds s > 0))"
    by (simp add: canStart_def)
  show "0 \<le> inputHours s \<and> 0 \<le> inputMinutes s \<and> 0 \<le> inputSeconds s \<longrightarrow>
      (canStart s \<longleftrightarrow>
        (hasStarted s \<and> remainingTime s > 0) \<or> (\<not> hasStarted s \<and> totalInput s \<noteq> 0))"
    by (auto simp add: canStart_def totalInput_def)
  show "\<not> canStart s \<longrightarrow> startTimer s = s"
    by (auto simp add: canStart_def totalInput_def startTimer_def)
  show "\<not> hasStarted s \<and> totalInput s \<le> 0 \<longrightarrow> startTimer s = s"
    by (simp add: startTimer_def)
  show "hasStarted s \<and> remainingTime s = 0 \<longrightarrow> startTimer s = s"
    by (simp add: startTimer_def)
qed

theorem canStart_and_noop_witness:
  "\<not> canStart (idle 0 0 0 Fast) \<and>
   startTimer (idle 0 0 0 Fast) = idle 0 0 0 Fast \<and>
   canStart (idle 0 1 30 Fast) \<and> totalInput (idle 0 1 30 Fast) = 90 \<and>
   hasStarted (tickCallback (startTimer (idle 0 0 1 NoFlash))) \<and>
   remainingTime (tickCallback (startTimer (idle 0 0 1 NoFlash))) = 0 \<and>
   \<not> canStart (tickCallback (startTimer (idle 0 0 1 NoFlash))) \<and>
   startTimer (tickCallback (startTimer (idle 0 0 1 NoFlash))) =
     tickCallback (startTimer (idle 0 0 1 NoFlash))"
proof -
  have a: "\<not> hasStarted (idle 0 0 0 Fast) \<and> totalInput (idle 0 0 0 Fast) \<le> 0 \<and>
      inputHours (idle 0 0 0 Fast) = 0 \<and> inputMinutes (idle 0 0 0 Fast) = 0 \<and>
      inputSeconds (idle 0 0 0 Fast) = 0"
    by (simp add: idle_def totalInput_def)
  have b: "\<not> hasStarted (idle 0 1 30 Fast) \<and> totalInput (idle 0 1 30 Fast) = 90 \<and>
      inputHours (idle 0 1 30 Fast) = 0 \<and> inputMinutes (idle 0 1 30 Fast) = 1 \<and>
      inputSeconds (idle 0 1 30 Fast) = 30"
    by (simp add: idle_def totalInput_def)
  have c: "hasStarted (tickCallback (startTimer (idle 0 0 1 NoFlash))) \<and>
      remainingTime (tickCallback (startTimer (idle 0 0 1 NoFlash))) = 0"
    by (simp add: expired1)
  from canStart_and_noop [of "idle 0 0 0 Fast"] canStart_and_noop [of "idle 0 1 30 Fast"]
    canStart_and_noop [of "tickCallback (startTimer (idle 0 0 1 NoFlash))"] a b c
  show ?thesis by simp
qed

text \<open>C6 as stated fails for a negative field: with hours \<open>-1\<close> and no session the total
  input duration is \<open>-3600\<close>, which is nonzero, and \<open>canStart\<close> is false.\<close>

theorem canStart_nonzero_counterexample:
  "\<not> (canStart (idle (- 1) 0 0 Fast) \<longleftrightarrow>
        (hasStarted (idle (- 1) 0 0 Fast) \<and> remainingTime (idle (- 1) 0 0 Fast) > 0) \<or>
        (\<not> hasStarted (idle (- 1) 0 0 Fast) \<and> totalInput (idle (- 1) 0 0 Fast) \<noteq> 0))"
  by (simp add: idle_def canStart_def totalInput_def)



text \<open>
  C8, as amended. In every state that the page can reach through the events the template
  enables, at most one tick interval and at most one alarm timeout are active, each
  recorded in its handle variable; Start and Resume are offered only while no tick
  interval is active; pause, reset, delete and the expiring tick leave no tick interval
  active, and dismissing leaves no alarm timeout active.
\<close>

theorem handles_paired:
  assumes r: "reachable s"
  shows "length (ticks s) \<le> 1 \<and> length (alarms s) \<le> 1 \<and>
         map tid (ticks s) = (case intervalId s of None \<Rightarrow> [] | Some h \<Rightarrow> [h]) \<and>
         map tid (alarms s) = (case alarmTimeoutId s of None \<Rightarrow> [] | Some h \<Rightarrow> [h]) \<and>
         (enabled ClickStart s \<or> enabled ClickResume s \<longrightarrow> ticks s = []) \<and>
         ticks (pauseTimer s) = [] \<and> ticks (resetTimer s) = [] \<and>
         ticks (deleteTimer s) = [] \<and>
         (remainingTime s \<le> 1 \<longrightarrow> ticks (tickCallback s) = []) \<and>
         alarms (stopAlarm s) = [] \<and> alarms (handleWindowClick s) = []"
proof -
  from r have ui: "ui_inv s" by (rule reachable_ui_inv)
  then have hi: "handles_inv s" by (simp add: ui_inv_def)
  have tk: "map tid (ticks s) = (case intervalId s of None \<Rightarrow> [] | Some h \<Rightarrow> [h])"
    and al: "map tid (alarms s) = (case alarmTimeoutId s of None \<Rightarrow> [] | Some h \<Rightarrow> [h])"
    using hi by (simp_all add: handles_inv_def)
  have l1: "length (ticks s) \<le> 1"
    using arg_cong [OF tk, of length] by (simp split: option.splits)
  have l2: "length (alarms s) \<le> 1"
    using arg_cong [OF al, of length] by (simp split: option.splits)
  have nr: "\<not> isRunning s \<Longrightarrow> ticks s = []"
    using hi tk by (auto simp add: handles_inv_def)
  have st: "enabled ClickStart s \<or> enabled ClickResume s \<longrightarrow> ticks s = []"
    using nr hi by (auto simp add: handles_inv_def)
  have p: "ticks (pauseTimer s) = []"
    by (rule pauseTimer_disarms [OF reachable_ticks_tracked [OF r]])
  have rs: "ticks (resetTimer s) = []"
    using p by (simp add: resetTimer_def Let_def ticks_def)
  have d: "ticks (deleteTimer s) = []"
    using p by (simp add: deleteTimer_def ticks_def)
  have sa: "ticks (startAlarm x) = ticks x" for x
    by (simp add: ticks_def startAlarm_alarm)
  have e: "remainingTime s \<le> 1 \<longrightarrow> ticks (tickCallback s) = []"
    using p by (simp add: tickCallback_cases sa pauseTimer_remaining) (simp add: ticks_def)
  have "handles_inv (stopAlarm s)" using hi by (rule handles_inv_stopAlarm)
  then have x: "alarms (stopAlarm s) = []" by (simp add: handles_inv_def)
  have y: "alarms (handleWindowClick s) = []"
    using x hi al by (auto simp add: handleWindowClick_def handles_inv_def)
  from tk al l1 l2 st p rs d e x y show ?thesis by simp
qed

theorem handles_paired_witness:
  "reachable (dispatch ClickStart (idle 0 0 5 Fast)) \<and>
   isRunning (dispatch ClickStart (idle 0 0 5 Fast)) \<and>
   length (ticks (dispatch ClickStart (idle 0 0 5 Fast))) \<le> 1 \<and>
   map tid (ticks (dispatch ClickStart (idle 0 0 5 Fast))) = [1] \<and>
   length (alarms (dispatch ClickStart (idle 0 0 5 Fast))) \<le> 1 \<and>
   ticks (pauseTimer (dispatch ClickStart (idle 0 0 5 Fast))) = [] \<and>
   ticks (resetTimer (dispatch ClickStart (idle 0 0 5 Fast))) = [] \<and>
   ticks (deleteTimer (dispatch ClickStart (idle 0 0 5 Fast))) = [] \<and>
   alarms (stopAlarm (dispatch ClickStart (idle 0 0 5 Fast))) = [] \<and>
   enabled ClickStart (idle 0 0 5 Fast) \<and> ticks (idle 0 0 5 Fast) = []"
proof -
  let ?s = "dispatch ClickStart (idle 0 0 5 Fast)"
  have en: "enabled ClickStart (idle 0 0 5 Fast)"
    by (simp add: idle_def canStart_def)
  have r0: "reachable (idle 0 0 5 Fast)" by (rule reachable.mounted)
  have r: "reachable ?s" using r0 en by (rule reachable.event)
  have e: "?s = startTimer (idle 0 0 5 Fast)"
    by (simp add: handleWindowClick_def idle_start5) (simp add: idle_def)
  have v: "isRunning ?s" "intervalId ?s = Some 1"
    unfolding e idle_start5 by (simp_all add: idle_def)
  note t = handles_paired [OF r]
  note t0 = handles_paired [OF r0]
  from t v have m: "map tid (ticks ?s) = [1]" by simp
  from t0 en have z: "ticks (idle 0 0 5 Fast) = []" by blast
  from t have l: "length (ticks ?s) \<le> 1" "length (alarms ?s) \<le> 1"
    "ticks (pauseTimer ?s) = []" "ticks (resetTimer ?s) = []" "ticks (deleteTimer ?s) = []"
    "alarms (stopAlarm ?s) = []"
    by blast+
  show ?thesis by (intro conjI r v(1) l m en z)
qed

text \<open>C8 as stated fails for \<open>startTimer\<close> called twice in a row: the first interval stays
  active beside the second, and \<open>pauseTimer\<close> clears only the second. It also fails for
  expiry, reset, start and expiry again with no click in between: two alarm timeouts
  are active.\<close>

theorem double_start_counterexample:
  "map tid (ticks (startTimer (startTimer (idle 0 0 5 Fast)))) = [1, 2] \<and>
   intervalId (startTimer (startTimer (idle 0 0 5 Fast))) = Some 2 \<and>
   map tid (ticks (pauseTimer (startTimer (startTimer (idle 0 0 5 Fast))))) = [1] \<and>
   map tid (alarms (tickCallback (startTimer (resetTimer
     (tickCallback (startTimer (idle 0 0 1 Fast))))))) = [2, 4]"
  unfolding idle_start5 expired1_fast
  by (simp add: startTimer_def pauseTimer_def resetTimer_def tickCallback_def startAlarm_def
        timer_api_defs ticks_def alarms_def idle_def)

text \<open>
  C9, as amended. On the first start the session's total duration is
  \<open>hours * 3600 + minutes * 60 + seconds\<close> of the input fields as they are (when that sum
  is positive; otherwise no session is created); \<open>startTimer\<close> clamps nothing. When each
  field lies in its range, this is the total of the clamped fields.
\<close>

theorem first_start_total:
  "\<not> hasStarted s \<Longrightarrow>
     (0 < totalInput s \<longrightarrow>
        hasStarted (startTimer s) \<and>
        originalTime (startTimer s) =
          inputHours s * 3600 + inputMinutes s * 60 + inputSeconds s \<and>
        remainingTime (startTimer s) = originalTime (startTimer s)) \<and>
     (totalInput s \<le> 0 \<longrightarrow> startTimer s = s) \<and>
     (0 \<le> inputHours s \<and> inputHours s \<le> 99 \<and> 0 \<le> inputMinutes s \<and>
      inputMinutes s \<le> 59 \<and> 0 \<le> inputSeconds s \<and> inputSeconds s \<le> 59 \<longrightarrow>
        totalInput s = clampedTotal s)"
  by (simp add: startTimer_def totalInput_def timer_api_defs clampedTotal_def clampTo_def
        Let_def)

theorem first_start_total_witness:
  "\<not> hasStarted (idle 1 2 3 NoFlash) \<and> totalInput (idle 1 2 3 NoFlash) = 3723 \<and>
   originalTime (startTimer (idle 1 2 3 NoFlash)) = 3723 \<and>
   remainingTime (startTimer (idle 1 2 3 NoFlash)) = 3723 \<and>
   clampedTotal (idle 1 2 3 NoFlash) = 3723 \<and>
   totalInput (idle 0 0 0 NoFlash) = 0 \<and>
   startTimer (idle 0 0 0 NoFlash) = idle 0 0 0 NoFlash"
proof -
  have a: "\<not> hasStarted (idle 1 2 3 NoFlash)" "totalInput (idle 1 2 3 NoFlash) = 3723"
    "inputHours (idle 1 2 3 NoFlash) = 1" "inputMinutes (idle 1 2 3 NoFlash) = 2"
    "inputSeconds (idle 1 2 3 NoFlash) = 3"
    by (simp_all add: idle_def totalInput_def)
  have b: "\<not> hasStarted (idle 0 0 0 NoFlash)" "totalInput (idle 0 0 0 NoFlash) = 0"
    by (simp_all add: idle_def totalInput_def)
  from first_start_total [OF a(1)] first_start_total [OF b(1)] a b
  show ?thesis by simp
qed

text \<open>C9 as stated fails: with hours \<open>100\<close> the first start stores \<open>360000\<close> seconds, where
  the clamped fields would give \<open>356400\<close>.\<close>

theorem total_unclamped_counterexample:
  "\<not> hasStarted (idle 100 0 0 NoFlash) \<and>
   originalTime (startTimer (idle 100 0 0 NoFlash)) = 360000 \<and>
   clampedTotal (idle 100 0 0 NoFlash) = 356400"
  by (simp add: idle_def startTimer_def totalInput_def timer_api_defs clampedTotal_def
        clampTo_def)

text \<open>
  C10. \<open>deleteTimer\<close> changes the session fields, the three input fields, \<open>isRunning\<close>,
  \<open>intervalId\<close> and the tick interval only: \<open>isAlarming\<close>, \<open>alarmTimeoutId\<close> and, the
  handles being distinct, the pending alarm timeout stay as they are. No timer function
  and no tick clears \<open>isAlarming\<close>; the timeout's callback and a click do.
\<close>

theorem deleteTimer_leaves_alarm:
  "deleteTimer s =
     s\<lparr>isRunning := False, intervalId := None,
       timers := (case intervalId s of None \<Rightarrow> timers s
                  | Some h \<Rightarrow> filter (\<lambda>t. tid t \<noteq> h) (timers s)),
       hasStarted := False, remainingTime := 0, originalTime := 0,
       inputHours := 0, inputMinutes := 0, inputSeconds := 0\<rparr> \<and>
   isAlarming (deleteTimer s) = isAlarming s \<and>
   alarmTimeoutId (deleteTimer s) = alarmTimeoutId s \<and>
   flashingMode (deleteTimer s) = flashingMode s \<and>
   ((\<forall>t \<in> set (alarms s). intervalId s \<noteq> Some (tid t)) \<longrightarrow>
      alarms (deleteTimer s) = alarms s) \<and>
   (isAlarming s \<longrightarrow>
      isAlarming (startTimer s) \<and> isAlarming (pauseTimer s) \<and> isAlarming (resetTimer s) \<and>
      isAlarming (tickCallback s) \<and> isAlarming (elapse d s)) \<and>
   \<not> isAlarming (alarmCallback s) \<and> \<not> isAlarming (handleWindowClick s)"
proof -
  have a: "deleteTimer s =
     s\<lparr>isRunning := False, intervalId := None,
       timers := (case intervalId s of None \<Rightarrow> timers s
                  | Some h \<Rightarrow> filter (\<lambda>t. tid t \<noteq> h) (timers s)),
       hasStarted := False, remainingTime := 0, originalTime := 0,
       inputHours := 0, inputMinutes := 0, inputSeconds := 0\<rparr>"
    by (simp add: deleteTimer_def pauseTimer_def timer_api_defs Let_def split: option.splits)
  have b: "alarms (deleteTimer s) = alarms s"
    if "\<forall>t \<in> set (alarms s). intervalId s \<noteq> Some (tid t)"
  proof (cases "intervalId s")
    case None
    then show ?thesis by (simp add: a alarms_def)
  next
    case (Some h)
    from that Some have "\<forall>t \<in> set (alarms s). tid t \<noteq> h" by auto
    then have "filter (\<lambda>t. tid t \<noteq> h) (alarms s) = alarms s" by simp
    with Some show ?thesis
      unfolding a alarms_def by (simp add: conj_commute)
  qed
  have c: "isAlarming s \<longrightarrow>
      isAlarming (startTimer s) \<and> isAlarming (pauseTimer s) \<and> isAlarming (resetTimer s) \<and>
      isAlarming (tickCallback s) \<and> isAlarming (elapse d s)"
    by (simp add: resetTimer_def Let_def tickCallback_flags elapse_def)
  have e: "\<not> isAlarming (alarmCallback s)" "\<not> isAlarming (handleWindowClick s)"
    by (simp_all add: alarmCallback_def handleWindowClick_def)
  have f: "isAlarming (deleteTimer s) = isAlarming s"
    "alarmTimeoutId (deleteTimer s) = alarmTimeoutId s"
    "flashingMode (deleteTimer s) = flashingMode s"
    by (simp_all add: deleteTimer_def)
  from a b c e f show ?thesis by blast
qed

theorem deleteTimer_leaves_alarm_witness:
  "isAlarming (tickCallback (startTimer (idle 0 0 1 Fast))) \<and>
   alarmTimeoutId (tickCallback (startTimer (idle 0 0 1 Fast))) = Some 2 \<and>
   isAlarming (deleteTimer (tickCallback (startTimer (idle 0 0 1 Fast)))) \<and>
   alarmTimeoutId (deleteTimer (tickCallback (startTimer (idle 0 0 1 Fast)))) = Some 2 \<and>
   alarms (deleteTimer (tickCallback (startTimer (idle 0 0 1 Fast)))) =
     [\<lparr>tid = 2, repeating = False, delay = 10000, due = 10000, cb = AlarmCb\<rparr>] \<and>
   \<not> hasStarted (deleteTimer (tickCallback (startTimer (idle 0 0 1 Fast)))) \<and>
   isAlarming (resetTimer (tickCallback (startTimer (idle 0 0 1 Fast))))"
proof -
  let ?a = "tickCallback (startTimer (idle 0 0 1 Fast))"
  have v: "isAlarming ?a" "alarmTimeoutId ?a = Some 2" "intervalId ?a = None"
    "alarms ?a = [\<lparr>tid = 2, repeating = False, delay = 10000, due = 10000, cb = AlarmCb\<rparr>]"
    unfolding expired1_fast by (simp_all add: alarms_def idle_def)
  then have h: "\<forall>t \<in> set (alarms ?a). intervalId ?a \<noteq> Some (tid t)" by simp
  note t = deleteTimer_leaves_alarm [of ?a 0]
  note k = t [THEN conjunct2, THEN conjunct2, THEN conjunct2, THEN conjunct2]
  from t have d: "\<not> hasStarted (deleteTimer ?a)"
    by (simp add: deleteTimer_def)
  from t v have f: "isAlarming (deleteTimer ?a)" "alarmTimeoutId (deleteTimer ?a) = Some 2"
    by simp_all
  from k [THEN conjunct1, THEN mp, OF h] v
  have g: "alarms (deleteTimer ?a) =
      [\<lparr>tid = 2, repeating = False, delay = 10000, due = 10000, cb = AlarmCb\<rparr>]"
    by simp
  from k [THEN conjunct2, THEN conjunct1, THEN mp, OF v(1)]
  have r: "isAlarming (resetTimer ?a)" by simp
  show ?thesis by (intro conjI v(1) v(2) f g d r)
qed

end
